theory Spec2Isabelle
  imports Main
begin

section \<open>Character classes and string primitives\<close>

text \<open>
  The source works on Python \<open>str\<close> values. Here a string is a \<open>char list\<close> and the
  classification tables are those of the ASCII range: a character above 127 is neither a
  letter, a digit nor white space, and lower-cases to itself. Lower-casing maps one
  character to one character, as \<open>str.lower\<close> does on ASCII text.
\<close>

datatype error = ValueError string | IndexError

definition isspace :: "char \<Rightarrow> bool" where
  \<comment> \<open>white space of \<open>str.strip\<close> and \<open>str.split\<close>: TAB..CR, FS..US and the blank\<close>
  "isspace c = (let n = (of_char c :: nat) in (9 \<le> n \<and> n \<le> 13) \<or> (28 \<le> n \<and> n \<le> 32))"

definition regex_space :: "char \<Rightarrow> bool" where
  \<comment> \<open>the class \<open>\s\<close> of the pattern in \<open>conditions\<close>\<close>
  "regex_space c = (let n = (of_char c :: nat) in (9 \<le> n \<and> n \<le> 13) \<or> n = 32)"

definition is_letter :: "char \<Rightarrow> bool" where
  \<comment> \<open>the class \<open>\p{L}\<close>\<close>
  "is_letter c = (let n = (of_char c :: nat) in (65 \<le> n \<and> n \<le> 90) \<or> (97 \<le> n \<and> n \<le> 122))"

definition isalnum :: "char \<Rightarrow> bool" where
  "isalnum c = (let n = (of_char c :: nat) in
     (48 \<le> n \<and> n \<le> 57) \<or> (65 \<le> n \<and> n \<le> 90) \<or> (97 \<le> n \<and> n \<le> 122))"

definition lower_char :: "char \<Rightarrow> char" where
  "lower_char c = (let n = (of_char c :: nat) in
     if 65 \<le> n \<and> n \<le> 90 then char_of (n + 32) else c)"

definition lower :: "string \<Rightarrow> string" where
  "lower s = map lower_char s"

definition lstrip :: "string \<Rightarrow> string" where
  "lstrip s = dropWhile isspace s"

definition rstrip :: "string \<Rightarrow> string" where
  "rstrip s = rev (dropWhile isspace (rev s))"

definition strip :: "string \<Rightarrow> string" where
  "strip s = lstrip (rstrip s)"

text \<open>\<open>str.split()\<close> without argument: the maximal runs of non-space characters.\<close>

fun split_aux :: "string \<Rightarrow> string \<Rightarrow> string list" where
  "split_aux [] cur = (if cur = [] then [] else [cur])"
| "split_aux (c # cs) cur =
     (if isspace c then (if cur = [] then split_aux cs [] else cur # split_aux cs [])
      else split_aux cs (cur @ [c]))"

definition split :: "string \<Rightarrow> string list" where
  "split s = split_aux s []"

text \<open>\<open>str.split("\n")\<close>: the pieces between line feeds, empty ones kept.\<close>

fun split_nl_aux :: "string \<Rightarrow> string \<Rightarrow> string list" where
  "split_nl_aux [] cur = [cur]"
| "split_nl_aux (c # cs) cur =
     (if c = CHR 0x0A then cur # split_nl_aux cs [] else split_nl_aux cs (cur @ [c]))"

definition split_nl :: "string \<Rightarrow> string list" where
  "split_nl s = split_nl_aux s []"

text \<open>\<open>' '.join(xs)\<close>.\<close>

fun join_sp :: "string list \<Rightarrow> string" where
  "join_sp [] = []"
| "join_sp [x] = x"
| "join_sp (x # y # ys) = x @ CHR '' '' # join_sp (y # ys)"

text \<open>
  Python slicing \<open>xs[i:j]\<close> with integer bounds: a negative bound counts from the end,
  and both are clamped to the list.
\<close>

definition norm_index :: "nat \<Rightarrow> int \<Rightarrow> nat" where
  "norm_index n i = (if i < 0 then nat (max 0 (int n + i)) else min n (nat i))"

definition py_slice :: "'a list \<Rightarrow> int \<Rightarrow> int \<Rightarrow> 'a list" where
  "py_slice xs i j = (let a = norm_index (length xs) i; b = norm_index (length xs) j
                      in take (b - a) (drop a xs))"

definition py_slice_to :: "'a list \<Rightarrow> int \<Rightarrow> 'a list" where
  \<comment> \<open>\<open>xs[:j]\<close>\<close>
  "py_slice_to xs j = take (norm_index (length xs) j) xs"

definition py_slice_from :: "'a list \<Rightarrow> int \<Rightarrow> 'a list" where
  \<comment> \<open>\<open>xs[i:]\<close>\<close>
  "py_slice_from xs i = drop (norm_index (length xs) i) xs"

text \<open>Python indexing \<open>xs[i]\<close>: \<open>None\<close> stands for the IndexError.\<close>

definition py_get :: "'a list \<Rightarrow> int \<Rightarrow> 'a option" where
  "py_get xs i = (let n = int (length xs); j = (if i < 0 then n + i else i)
                  in if 0 \<le> j \<and> j < n then Some (xs ! nat j) else None)"

text \<open>\<open>s.find(c, i)\<close> for a single character: the first position at or after \<open>i\<close>, or \<open>-1\<close>.\<close>

fun find_aux :: "string \<Rightarrow> char \<Rightarrow> nat \<Rightarrow> nat option" where
  "find_aux [] c k = None"
| "find_aux (x # xs) c k = (if x = c then Some k else find_aux xs c (Suc k))"

definition find_from :: "string \<Rightarrow> char \<Rightarrow> nat \<Rightarrow> nat option" where
  "find_from s c i = find_aux (drop i s) c i"

definition find :: "string \<Rightarrow> char \<Rightarrow> int" where
  "find s c = (case find_from s c 0 of None \<Rightarrow> -1 | Some k \<Rightarrow> int k)"

text \<open>\<open>xs.index(x, i)\<close>: \<open>None\<close> stands for the ValueError the source catches.\<close>

definition py_index :: "'a list \<Rightarrow> 'a \<Rightarrow> int \<Rightarrow> int option" where
  "py_index xs x i = (let a = norm_index (length xs) i in
     case List.find (\<lambda>k. xs ! k = x) [a ..< length xs] of
       None \<Rightarrow> None | Some k \<Rightarrow> Some (int k))"

section \<open>The span candidate\<close>

text \<open>
  \<open>class Candidate(str)\<close>: a string together with the offsets \<open>start\<close> and \<open>stop\<close>
  it was constructed with. The field \<open>str\<close> is the string value itself. The offsets
  are Python integers.
\<close>

record Candidate =
  start :: int
  stop :: int
  str :: string

section \<open>Candidate Finder: \<open>conditions\<close> and \<open>best_candidates\<close>\<close>

text \<open>
  \<open>regex.match('(\p{L}\.?\s?){2,}', s)\<close>: at the start of \<open>s\<close>, two or more repetitions
  of a letter, an optional dot and an optional white-space character. After the letter of
  one repetition the next repetition needs a letter again, so a dot or a space that is
  there has to be taken: the greedy reading decides the match.
\<close>

definition skip_opt :: "(char \<Rightarrow> bool) \<Rightarrow> string \<Rightarrow> string" where
  "skip_opt p s = (case s of [] \<Rightarrow> [] | c # cs \<Rightarrow> if p c then cs else s)"

definition regex_unit :: "string \<Rightarrow> string option" where
  "regex_unit s = (case s of [] \<Rightarrow> None
     | c # cs \<Rightarrow> if is_letter c then Some (skip_opt regex_space (skip_opt (\<lambda>x. x = CHR ''.'') cs))
                else None)"

definition regex_match :: "string \<Rightarrow> bool" where
  "regex_match s = (case regex_unit s of None \<Rightarrow> False
     | Some r \<Rightarrow> (case regex_unit r of None \<Rightarrow> False | Some _ \<Rightarrow> True))"

definition conditions :: "string \<Rightarrow> bool" where
  "conditions candidate =
     (if regex_match (lstrip candidate) then True
      else if length candidate < 2 \<or> length candidate > 10 then False
      else if length (split candidate) > 2 then False
      else if \<not> list_ex is_letter candidate then False
      else if \<not> isalnum (hd candidate) then False
      else True)"

text \<open>
  The inner \<open>while open:\<close> loop. \<open>rest\<close> is the sentence from \<open>closeindex\<close> on; reading
  past the end is the IndexError that sets \<open>skip\<close>, here \<open>None\<close>.
\<close>

fun scan_close :: "string \<Rightarrow> nat \<Rightarrow> nat \<Rightarrow> nat option" where
  "scan_close [] opn closeindex = (if opn = 0 then Some closeindex else None)"
| "scan_close (c # cs) opn closeindex =
     (if opn = 0 then Some closeindex
      else scan_close cs
             (if c = CHR ''('' then opn + 1 else if c = CHR '')'' then opn - 1 else opn)
             (closeindex + 1))"

lemma find_aux_bounds: "find_aux xs c k = Some r \<Longrightarrow> k \<le> r \<and> r < k + length xs"
  by (induction xs arbitrary: k) (fastforce split: if_splits)+

lemma find_from_bounds: "find_from s c i = Some r \<Longrightarrow> i \<le> r \<and> r < length s"
  unfolding find_from_def by (drule find_aux_bounds) auto

lemma scan_close_bounds:
  "scan_close rest opn k = Some r \<Longrightarrow> k \<le> r \<and> r \<le> k + length rest"
  by (induction rest opn k rule: scan_close.induct) (fastforce split: if_splits)+

text \<open>
  The outer \<open>while 1:\<close> loop of \<open>best_candidates\<close>, from the value \<open>closeindex\<close> has
  at the top of an iteration; the result is the list of the candidates it yields.
\<close>

function best_loop :: "string \<Rightarrow> int \<Rightarrow> Candidate list" where
  "best_loop sentence closeindex =
     (case find_from sentence (CHR ''('') (nat (closeindex + 1)) of
        None \<Rightarrow> []
      | Some openindex \<Rightarrow>
          (case scan_close (drop (openindex + 1) sentence) 1 (openindex + 1) of
             None \<Rightarrow> best_loop sentence (int openindex + 1)
           | Some closeindex' \<Rightarrow>
               (let start0 = int openindex + 1;
                    stop0 = int closeindex' - 1;
                    candidate0 = py_slice sentence start0 stop0;
                    start1 = start0 + int (length candidate0) - int (length (lstrip candidate0));
                    stop1 = stop0 - int (length candidate0) + int (length (rstrip candidate0));
                    candidate = py_slice sentence start1 stop1
                in (if conditions candidate
                    then [\<lparr>start = start1, stop = stop1, str = candidate\<rparr>] else [])
                   @ best_loop sentence (int closeindex'))))"
  by pat_completeness auto
termination
proof (relation "measure (\<lambda>(s, ci). nat (int (length s) + 2 - ci))", goal_cases)
  case 1
  show ?case by simp
next
  case (2 sentence closeindex openindex)
  then show ?case by (auto dest!: find_from_bounds)
next
  case (3 sentence closeindex openindex closeindex')
  then show ?case by (auto dest!: find_from_bounds scan_close_bounds)
qed

declare best_loop.simps [simp del]

definition best_candidates :: "string \<Rightarrow> error + Candidate list" where
  "best_candidates sentence =
     (if CHR ''('' \<in> set sentence then
        if count_list sentence (CHR ''('') \<noteq> count_list sentence (CHR '')'')
        then Inl (ValueError (''Unbalanced parentheses: '' @ sentence))
        else if find sentence (CHR ''('') > find sentence (CHR '')'')
        then Inl (ValueError (''First parentheses is right: '' @ sentence))
        else Inr (best_loop sentence (- 1))
      else Inr [])"

section \<open>Definition Locator: \<open>get_definition\<close>\<close>

text \<open>
  The \<open>while count < candidate_freq:\<close> loop. \<open>start0\<close> is the source's negative
  counter \<open>start\<close>; a failing \<open>firstchars.index\<close> leaves \<open>startindex\<close> as it was.
  The result is the final \<open>startindex\<close>.
\<close>

function definition_loop ::
  "char list \<Rightarrow> char \<Rightarrow> string \<Rightarrow> nat \<Rightarrow> nat \<Rightarrow> int \<Rightarrow> int \<Rightarrow> error + int" where
  "definition_loop firstchars key cand candidate_freq count start0 startindex =
     (if count < candidate_freq then
        (if \<bar>start0\<bar> > int (length firstchars)
         then Inl (ValueError (''candiate '' @ cand @ '' not found''))
         else
           (let start1 = start0 - 1;
                startindex1 = (case py_index firstchars key (int (length firstchars) + start1) of
                                 None \<Rightarrow> startindex | Some k \<Rightarrow> k);
                count1 = count_list (py_slice_from firstchars startindex1) key
            in definition_loop firstchars key cand candidate_freq count1 start1 startindex1))
      else Inr startindex)"
  by pat_completeness auto
termination
  by (relation "measure (\<lambda>(fc, key, cand, cf, cnt, st, si). nat (int (length fc) + 1 + st))") auto

declare definition_loop.simps [simp del]

text \<open>
  \<open>get_definition(candidate, sentence)\<close>. \<open>candidate[0]\<close> of an empty candidate is an
  IndexError; every token of \<open>split\<close> is non-empty, so \<open>t[0]\<close> is its head.
\<close>

definition get_definition :: "Candidate \<Rightarrow> string \<Rightarrow> error + Candidate" where
  "get_definition candidate sentence =
     (let tokens = split (lower (py_slice_to sentence (start candidate - 2))) in
      case str candidate of
        [] \<Rightarrow> Inl IndexError
      | c0 # _ \<Rightarrow>
         (let key = lower_char c0;
              firstchars = map hd tokens;
              definition_freq = count_list firstchars key;
              candidate_freq = count_list (lower (str candidate)) key
          in if candidate_freq \<le> definition_freq then
               (case definition_loop firstchars key (str candidate) candidate_freq 0 0
                       (int (length firstchars) - 1) of
                  Inl e \<Rightarrow> Inl e
                | Inr startindex \<Rightarrow>
                   (let start0 = int (length (join_sp (py_slice_to tokens startindex)));
                        stop0 = start candidate - 1;
                        candidate0 = py_slice sentence start0 stop0;
                        start1 = start0 + int (length candidate0) - int (length (lstrip candidate0));
                        stop1 = stop0 - int (length candidate0) + int (length (rstrip candidate0));
                        candidate1 = py_slice sentence start1 stop1
                    in Inr \<lparr>start = start1, stop = stop1, str = candidate1\<rparr>))
             else Inl (ValueError
               ''There are less keys in the tokens in front of candidate than there are in the candidate'')))"

section \<open>Definition Validator: \<open>select_definition\<close>\<close>

text \<open>
  One iteration of the \<open>while 1:\<close> loop of \<open>select_definition\<close>, from the cursors
  \<open>sindex\<close> and \<open>lindex\<close>: it leaves the loop by \<open>break\<close>, raises (the cursors at that
  moment are kept with the error), or goes on with new cursors.
\<close>

datatype step = Break int | Raise error int int | Next int int

definition align_step :: "string \<Rightarrow> string \<Rightarrow> int \<Rightarrow> int \<Rightarrow> step" where
  "align_step defn abbrev sindex lindex =
     (case py_get defn lindex of
        None \<Rightarrow> Raise IndexError sindex lindex
      | Some lc \<Rightarrow>
         (let longchar = lower_char lc in
          case py_get abbrev sindex of
            None \<Rightarrow> Raise IndexError sindex lindex
          | Some sc \<Rightarrow>
             (let shortchar = lower_char sc;
                  sindex1 = (if \<not> isalnum shortchar then sindex - 1 else sindex)
              in if sindex1 = - 1 * int (length abbrev) then
                   (if shortchar = longchar then
                      (if lindex = - 1 * int (length defn) then Break lindex
                       else (case py_get defn (lindex - 1) of
                               None \<Rightarrow> Raise IndexError sindex1 lindex
                             | Some pc \<Rightarrow> if \<not> isalnum pc then Break lindex
                                          else Next sindex1 (lindex - 1)))
                    else
                      (let lindex1 = lindex - 1 in
                       if lindex1 = - 1 * (int (length defn) + 1)
                       then Raise (ValueError (''definition '' @ abbrev @ '' was not found in '' @ defn))
                              sindex1 lindex1
                       else Next sindex1 lindex1))
                 else
                   (if shortchar = longchar then Next (sindex1 - 1) (lindex - 1)
                    else Next sindex1 (lindex - 1)))))"

text \<open>
  The loop itself. Every iteration that goes on has read \<open>defn[lindex]\<close> and moves
  \<open>lindex\<close> one to the left.
\<close>

lemma align_step_Next:
  "align_step defn abbrev sindex lindex = Next s l \<Longrightarrow>
     l = lindex - 1 \<and> - int (length defn) \<le> lindex \<and> lindex < int (length defn)"
  by (auto simp: align_step_def py_get_def Let_def split: option.splits if_splits)

function align_loop :: "string \<Rightarrow> string \<Rightarrow> int \<Rightarrow> int \<Rightarrow> (error \<times> int \<times> int) + int" where
  "align_loop defn abbrev sindex lindex =
     (case align_step defn abbrev sindex lindex of
        Break l \<Rightarrow> Inr l
      | Raise e s l \<Rightarrow> Inl (e, s, l)
      | Next s l \<Rightarrow> align_loop defn abbrev s l)"
  by pat_completeness auto
termination
  by (relation "measure (\<lambda>(d, a, s, l). nat (l + int (length d) + 1))")
     (auto dest!: align_step_Next)

declare align_loop.simps [simp del]

text \<open>The same loop cut off after \<open>n\<close> iterations: \<open>None\<close> when it has not stopped by then.\<close>

fun align_run :: "nat \<Rightarrow> string \<Rightarrow> string \<Rightarrow> int \<Rightarrow> int \<Rightarrow> ((error \<times> int \<times> int) + int) option" where
  "align_run 0 defn abbrev sindex lindex = None"
| "align_run (Suc n) defn abbrev sindex lindex =
     (case align_step defn abbrev sindex lindex of
        Break l \<Rightarrow> Some (Inr l)
      | Raise e s l \<Rightarrow> Some (Inl (e, s, l))
      | Next s l \<Rightarrow> align_run n defn abbrev s l)"

definition select_definition :: "Candidate \<Rightarrow> Candidate \<Rightarrow> error + Candidate" where
  "select_definition defn abbrev =
     (if length (str defn) < length (str abbrev)
      then Inl (ValueError ''Abbreviation is longer than definition'')
      else if str abbrev \<in> set (split (str defn))
      then Inl (ValueError ''Abbreviation is full word of definition'')
      else
        (case align_loop (str defn) (str abbrev) (- 1) (- 1) of
           Inl (e, _, _) \<Rightarrow> Inl e
         | Inr lindex \<Rightarrow>
            (let defn1 = \<lparr>start = start defn, stop = stop defn,
                          str = py_slice (str defn) lindex (int (length (str defn)))\<rparr>;
                 tokens = length (split (str defn1));
                 len = length (str abbrev)
             in if tokens > min (len + 5) (len * 2)
                then Inl (ValueError ''did not meet min(|A|+5, |A|*2) constraint'')
                else if count_list (str defn1) (CHR ''('') \<noteq> count_list (str defn1) (CHR '')'')
                then Inl (ValueError ''Unbalanced parentheses not allowed in a definition'')
                else Inr defn1)))"

section \<open>Pipeline Orchestrator: \<open>extract_abbreviation_definition_pairs\<close>\<close>

text \<open>
  The dictionary \<open>abbrev_map\<close> is keyed by the string value of the candidate (a
  \<open>Candidate\<close> hashes and compares as the \<open>str\<close> it is). The counters \<open>omit\<close> and
  \<open>written\<close> only feed the log and are left out, as is the log itself.

  A result \<open>Inl e\<close> of the functions below is an exception that no handler of
  \<open>extract_abbreviation_definition_pairs\<close> catches, so that it reaches the caller.
\<close>

type_synonym abbrev_map = "string \<rightharpoonup> Candidate"

text \<open>The body of \<open>for candidate in best_candidates(sentence)\<close> with its two inner handlers.\<close>

definition process_candidate :: "string \<Rightarrow> abbrev_map \<Rightarrow> Candidate \<Rightarrow> error + abbrev_map" where
  "process_candidate sentence m candidate =
     (case get_definition candidate sentence of
        Inl (ValueError _) \<Rightarrow> Inr m
      | Inl IndexError \<Rightarrow> Inl IndexError
      | Inr defn \<Rightarrow>
         (case select_definition defn candidate of
            Inl IndexError \<Rightarrow> Inr m
          | Inl (ValueError _) \<Rightarrow> Inr m
          | Inr defn1 \<Rightarrow> Inr (m(str candidate \<mapsto> defn1))))"

fun process_candidates :: "string \<Rightarrow> abbrev_map \<Rightarrow> Candidate list \<Rightarrow> error + abbrev_map" where
  "process_candidates sentence m [] = Inr m"
| "process_candidates sentence m (c # cs) =
     (case process_candidate sentence m c of
        Inl e \<Rightarrow> Inl e
      | Inr m1 \<Rightarrow> process_candidates sentence m1 cs)"

text \<open>
  The body of \<open>for i, sentence in sentence_iterator\<close>: the generator raises its
  ValueError before it yields anything, and the outer handler catches it.
\<close>

definition process_line :: "abbrev_map \<Rightarrow> string \<Rightarrow> error + abbrev_map" where
  "process_line m sentence =
     (case best_candidates sentence of
        Inl (ValueError _) \<Rightarrow> Inr m
      | Inl IndexError \<Rightarrow> Inl IndexError
      | Inr cs \<Rightarrow> process_candidates sentence m cs)"

fun process_lines :: "abbrev_map \<Rightarrow> string list \<Rightarrow> error + abbrev_map" where
  "process_lines m [] = Inr m"
| "process_lines m (l # ls) =
     (case process_line m l of Inl e \<Rightarrow> Inl e | Inr m1 \<Rightarrow> process_lines m1 ls)"

definition yield_lines_from_doc :: "string \<Rightarrow> string list" where
  "yield_lines_from_doc doc_text = map strip (split_nl doc_text)"

text \<open>
  \<open>extract_abbreviation_definition_pairs(doc_text=...)\<close>, the call on an in-memory
  document (\<open>file_path\<close> is \<open>None\<close>); \<open>None\<close> and the empty string are both falsy.
\<close>

definition extract_abbreviation_definition_pairs :: "string option \<Rightarrow> error + abbrev_map" where
  "extract_abbreviation_definition_pairs doc_text =
     (case doc_text of
        None \<Rightarrow> Inr Map.empty
      | Some d \<Rightarrow> if d = [] then Inr Map.empty
                  else process_lines Map.empty (yield_lines_from_doc d))"

section \<open>The line \<open>World Health Organization (WHO)\<close>\<close>

lemma who_best_candidates:
  "best_candidates ''World Health Organization (WHO)''
     = Inr [\<lparr>start = 27, stop = 30, str = ''WHO''\<rparr>]"
  by code_simp

lemma who_get_definition:
  "get_definition \<lparr>start = 27, stop = 30, str = ''WHO''\<rparr> ''World Health Organization (WHO)''
     = Inr \<lparr>start = 0, stop = 25, str = ''World Health Organization''\<rparr>"
  by code_simp

lemma who_select_definition:
  "select_definition \<lparr>start = 0, stop = 25, str = ''World Health Organization''\<rparr>
       \<lparr>start = 27, stop = 30, str = ''WHO''\<rparr>
     = Inr \<lparr>start = 0, stop = 25, str = ''World Health Organization''\<rparr>"
  by code_simp

lemma who_lines:
  "yield_lines_from_doc ''World Health Organization (WHO)'' = [''World Health Organization (WHO)'']"
  by code_simp

text \<open>
  Claim C2. On the line \<open>World Health Organization (WHO)\<close> the Candidate Finder yields
  exactly the candidate \<open>WHO\<close>, the Definition Locator returns
  \<open>World Health Organization\<close>, the Definition Validator returns that phrase unchanged,
  and the map returned for the one-line document has the single entry
  \<open>WHO \<mapsto> World Health Organization\<close>.
\<close>

theorem who_example:
  "best_candidates ''World Health Organization (WHO)''
     = Inr [\<lparr>start = 27, stop = 30, str = ''WHO''\<rparr>]
   \<and> get_definition \<lparr>start = 27, stop = 30, str = ''WHO''\<rparr> ''World Health Organization (WHO)''
     = Inr \<lparr>start = 0, stop = 25, str = ''World Health Organization''\<rparr>
   \<and> select_definition \<lparr>start = 0, stop = 25, str = ''World Health Organization''\<rparr>
         \<lparr>start = 27, stop = 30, str = ''WHO''\<rparr>
     = Inr \<lparr>start = 0, stop = 25, str = ''World Health Organization''\<rparr>
   \<and> extract_abbreviation_definition_pairs (Some ''World Health Organization (WHO)'')
     = Inr [''WHO'' \<mapsto> \<lparr>start = 0, stop = 25, str = ''World Health Organization''\<rparr>]"
  by (simp add: extract_abbreviation_definition_pairs_def who_lines process_line_def
        who_best_candidates process_candidate_def who_get_definition who_select_definition)

section \<open>Offsets of the narrowed definition\<close>

text \<open>
  The spans of the Candidate Finder and of the Definition Locator are built as
  \<open>sentence[start:stop]\<close> after the offsets are adjusted, so re-slicing gives them back.
\<close>

lemma best_loop_offsets:
  "c \<in> set (best_loop s ci) \<Longrightarrow> str c = py_slice s (start c) (stop c)"
proof (induction s ci rule: best_loop.induct)
  case (1 sentence closeindex)
  show ?case
  proof (cases "find_from sentence (CHR ''('') (nat (closeindex + 1))")
    case None
    with "1.prems" show ?thesis by (subst (asm) best_loop.simps) simp
  next
    case (Some openindex)
    note fo = Some
    show ?thesis
    proof (cases "scan_close (drop (openindex + 1) sentence) 1 (openindex + 1)")
      case None
      with fo "1.prems" have "c \<in> set (best_loop sentence (int openindex + 1))"
        by (subst (asm) best_loop.simps) simp
      with "1.IH"(1)[OF fo None] show ?thesis .
    next
      case (Some closeindex')
      from fo Some "1.prems"
      have "str c = py_slice sentence (start c) (stop c)
            \<or> c \<in> set (best_loop sentence (int closeindex'))"
        by (subst (asm) best_loop.simps) (auto simp: Let_def split: if_splits)
      then show ?thesis
      proof
        assume "c \<in> set (best_loop sentence (int closeindex'))"
        then show ?thesis using "1.IH"(2)[OF fo Some refl refl refl refl refl refl] by simp
      qed simp
    qed
  qed
qed

lemma best_candidates_offsets:
  "best_candidates s = Inr cs \<Longrightarrow> c \<in> set cs \<Longrightarrow> str c = py_slice s (start c) (stop c)"
  by (auto simp: best_candidates_def split: if_splits dest: best_loop_offsets)

lemma get_definition_offsets:
  "get_definition c s = Inr d \<Longrightarrow> str d = py_slice s (start d) (stop d)"
  by (auto simp: get_definition_def Let_def split: list.splits if_splits sum.splits)

lemma hyphen_best_candidates:
  "best_candidates ''a-ab (ab)'' = Inr [\<lparr>start = 6, stop = 8, str = ''ab''\<rparr>]"
  by code_simp

lemma hyphen_get_definition:
  "get_definition \<lparr>start = 6, stop = 8, str = ''ab''\<rparr> ''a-ab (ab)''
     = Inr \<lparr>start = 0, stop = 4, str = ''a-ab''\<rparr>"
  by code_simp

lemma hyphen_select_definition:
  "select_definition \<lparr>start = 0, stop = 4, str = ''a-ab''\<rparr> \<lparr>start = 6, stop = 8, str = ''ab''\<rparr>
     = Inr \<lparr>start = 0, stop = 4, str = ''ab''\<rparr>"
  by code_simp

lemma hyphen_lines: "yield_lines_from_doc ''a-ab (ab)'' = [''a-ab (ab)'']"
  by code_simp

lemma hyphen_slice: "py_slice ''a-ab (ab)'' 0 4 = ''a-ab''"
  by code_simp

text \<open>
  Claim C1. Re-slicing the line at the offsets of a returned span should give the span's
  string. On the line \<open>a-ab (ab)\<close> the Definition Locator returns \<open>a-ab\<close> at
  \<open>[0, 4)\<close>; the Definition Validator narrows the string to \<open>ab\<close> and keeps the
  offsets \<open>0\<close> and \<open>4\<close> of the wider span, so the definition stored in the final map
  is \<open>ab\<close> at \<open>[0, 4)\<close>, while the line sliced at \<open>[0, 4)\<close> is \<open>a-ab\<close>.
\<close>

theorem narrowed_definition_keeps_wide_offsets:
  "select_definition \<lparr>start = 0, stop = 4, str = ''a-ab''\<rparr> \<lparr>start = 6, stop = 8, str = ''ab''\<rparr>
     = Inr \<lparr>start = 0, stop = 4, str = ''ab''\<rparr>
   \<and> extract_abbreviation_definition_pairs (Some ''a-ab (ab)'')
     = Inr [''ab'' \<mapsto> \<lparr>start = 0, stop = 4, str = ''ab''\<rparr>]
   \<and> py_slice ''a-ab (ab)'' 0 4 = ''a-ab''
   \<and> py_slice ''a-ab (ab)'' 0 4 \<noteq> ''ab''"
  by (simp add: extract_abbreviation_definition_pairs_def hyphen_lines process_line_def
        hyphen_best_candidates process_candidate_def hyphen_get_definition
        hyphen_select_definition hyphen_slice)

section \<open>Start offset of the located definition\<close>

lemma wide_best_candidates:
  "best_candidates ''x  y ab (ab)'' = Inr [\<lparr>start = 9, stop = 11, str = ''ab''\<rparr>]"
  by code_simp

lemma wide_tokens:
  "split (lower (py_slice_to ''x  y ab (ab)'' (9 - 2))) = [''x'', ''y'', ''ab'']"
  by code_simp

lemma wide_get_definition:
  "get_definition \<lparr>start = 9, stop = 11, str = ''ab''\<rparr> ''x  y ab (ab)''
     = Inr \<lparr>start = 3, stop = 7, str = ''y ab''\<rparr>"
  by code_simp

lemma wide_token_offset: "py_slice ''x  y ab (ab)'' 5 7 = ''ab''"
  by code_simp

text \<open>
  Claim C3. The located span should start where the chosen starting token begins in the
  line, also when tokens are separated by more than one blank. On the line
  \<open>x  y ab (ab)\<close>, with two blanks after \<open>x\<close>, the tokens in front of the candidate
  are \<open>x\<close>, \<open>y\<close> and \<open>ab\<close>; the chosen starting token is \<open>ab\<close>, the only one with
  the key \<open>a\<close>, and it begins at offset \<open>5\<close>. The source takes the length of
  \<open>' '.join(tokens[:startindex])\<close>, which is \<open>3\<close>, and returns the span \<open>y ab\<close> at
  \<open>[3, 7)\<close>.
\<close>

theorem definition_start_with_wide_whitespace:
  "best_candidates ''x  y ab (ab)'' = Inr [\<lparr>start = 9, stop = 11, str = ''ab''\<rparr>]
   \<and> split (lower (py_slice_to ''x  y ab (ab)'' (9 - 2))) = [''x'', ''y'', ''ab'']
   \<and> py_slice ''x  y ab (ab)'' 5 7 = ''ab''
   \<and> get_definition \<lparr>start = 9, stop = 11, str = ''ab''\<rparr> ''x  y ab (ab)''
     = Inr \<lparr>start = 3, stop = 7, str = ''y ab''\<rparr>"
  by (simp only: wide_best_candidates wide_tokens wide_token_offset wide_get_definition simp_thms)

section \<open>Punctuation inside the abbreviation\<close>

lemma dot_step_1: "align_step ''alpha .b'' ''a.b'' (- 1) (- 1) = Next (- 2) (- 2)"
  by code_simp

lemma dot_step_2: "align_step ''alpha .b'' ''a.b'' (- 2) (- 2) = Break (- 2)"
  by code_simp

lemma dot_chars:
  "py_get ''a.b'' (- 2) = Some (CHR ''.'') \<and> py_get ''alpha .b'' (- 2) = Some (CHR ''.'')
   \<and> py_get ''a.b'' (- 3) = Some (CHR ''a'') \<and> \<not> isalnum (CHR ''.'')"
  by code_simp

lemma dot_select_definition:
  "select_definition \<lparr>start = 0, stop = 8, str = ''alpha .b''\<rparr>
       \<lparr>start = 10, stop = 13, str = ''a.b''\<rparr>
     = Inr \<lparr>start = 0, stop = 8, str = ''.b''\<rparr>"
  by code_simp

lemma dot_best_candidates:
  "best_candidates ''alpha .b (a.b)'' = Inr [\<lparr>start = 10, stop = 13, str = ''a.b''\<rparr>]"
  by code_simp

lemma dot_get_definition:
  "get_definition \<lparr>start = 10, stop = 13, str = ''a.b''\<rparr> ''alpha .b (a.b)''
     = Inr \<lparr>start = 0, stop = 8, str = ''alpha .b''\<rparr>"
  by code_simp

lemma dot_lines: "yield_lines_from_doc ''alpha .b (a.b)'' = [''alpha .b (a.b)'']"
  by code_simp

lemma dot_extract:
  "extract_abbreviation_definition_pairs (Some ''alpha .b (a.b)'')
     = Inr [''a.b'' \<mapsto> \<lparr>start = 0, stop = 8, str = ''.b''\<rparr>]"
  by (simp add: extract_abbreviation_definition_pairs_def dot_lines process_line_def
        dot_best_candidates process_candidate_def dot_get_definition dot_select_definition)

text \<open>
  Claim C4. A non-alphanumeric character of the abbreviation should never be the
  character compared with a definition character. The source moves \<open>sindex\<close> one to the
  left when \<open>shortchar\<close> is not alphanumeric, but does not read \<open>shortchar\<close> again, so
  the comparison of that iteration is made with the punctuation character. With the
  definition \<open>alpha .b\<close> and the abbreviation \<open>a.b\<close>, the second iteration reads the
  dot of the abbreviation at \<open>sindex = -2\<close>, moves \<open>sindex\<close> to \<open>-3\<close> (the first
  character), finds the dot equal to the dot of the definition at \<open>lindex = -2\<close> and
  leaves the loop there: the letter \<open>a\<close> is never compared, and the definition returned
  is \<open>.b\<close>, which the line \<open>alpha .b (a.b)\<close> then stores for \<open>a.b\<close>.
\<close>

theorem dot_of_abbreviation_is_compared:
  "py_get ''a.b'' (- 2) = Some (CHR ''.'') \<and> py_get ''alpha .b'' (- 2) = Some (CHR ''.'')
   \<and> \<not> isalnum (CHR ''.'')
   \<and> align_step ''alpha .b'' ''a.b'' (- 1) (- 1) = Next (- 2) (- 2)
   \<and> align_step ''alpha .b'' ''a.b'' (- 2) (- 2) = Break (- 2)
   \<and> select_definition \<lparr>start = 0, stop = 8, str = ''alpha .b''\<rparr>
         \<lparr>start = 10, stop = 13, str = ''a.b''\<rparr>
     = Inr \<lparr>start = 0, stop = 8, str = ''.b''\<rparr>
   \<and> extract_abbreviation_definition_pairs (Some ''alpha .b (a.b)'')
     = Inr [''a.b'' \<mapsto> \<lparr>start = 0, stop = 8, str = ''.b''\<rparr>]"
  by (simp only: dot_step_1 dot_step_2 dot_chars dot_select_definition dot_extract simp_thms)

section \<open>No exception leaves the orchestrator\<close>

lemma conditions_nonempty: "conditions c \<Longrightarrow> c \<noteq> []"
  by (auto simp: conditions_def lstrip_def regex_match_def regex_unit_def)

lemma best_loop_conditions: "c \<in> set (best_loop s ci) \<Longrightarrow> conditions (str c)"
proof (induction s ci rule: best_loop.induct)
  case (1 sentence closeindex)
  show ?case
  proof (cases "find_from sentence (CHR ''('') (nat (closeindex + 1))")
    case None
    with "1.prems" show ?thesis by (subst (asm) best_loop.simps) simp
  next
    case (Some openindex)
    note fo = Some
    show ?thesis
    proof (cases "scan_close (drop (openindex + 1) sentence) 1 (openindex + 1)")
      case None
      with fo "1.prems" have "c \<in> set (best_loop sentence (int openindex + 1))"
        by (subst (asm) best_loop.simps) simp
      with "1.IH"(1)[OF fo None] show ?thesis .
    next
      case (Some closeindex')
      from fo Some "1.prems"
      have "conditions (str c) \<or> c \<in> set (best_loop sentence (int closeindex'))"
        by (subst (asm) best_loop.simps) (auto simp: Let_def split: if_splits)
      then show ?thesis
      proof
        assume "c \<in> set (best_loop sentence (int closeindex'))"
        then show ?thesis using "1.IH"(2)[OF fo Some refl refl refl refl refl refl] by simp
      qed simp
    qed
  qed
qed


lemma best_candidates_conditions:
  "best_candidates s = Inr cs \<Longrightarrow> c \<in> set cs \<Longrightarrow> conditions (str c)"
  by (auto simp: best_candidates_def split: if_splits dest: best_loop_conditions)

lemma best_candidates_error: "best_candidates s = Inl e \<Longrightarrow> \<exists>msg. e = ValueError msg"
  by (auto simp: best_candidates_def split: if_splits)

lemma definition_loop_error:
  "definition_loop fc key cand cf cnt st si = Inl e \<Longrightarrow> \<exists>msg. e = ValueError msg"
proof (induction fc key cand cf cnt st si rule: definition_loop.induct)
  case (1 fc key cand cf cnt st si)
  show ?case
  proof (cases "cnt < cf \<and> \<not> \<bar>st\<bar> > int (length fc)")
    case True
    with "1.prems" have "definition_loop fc key cand cf
        (count_list (py_slice_from fc (case py_index fc key (int (length fc) + (st - 1)) of
                                 None \<Rightarrow> si | Some k \<Rightarrow> k)) key)
        (st - 1)
        (case py_index fc key (int (length fc) + (st - 1)) of None \<Rightarrow> si | Some k \<Rightarrow> k) = Inl e"
      by (subst (asm) definition_loop.simps) (simp add: Let_def)
    with "1.IH"[OF _ _ refl refl refl] True show ?thesis by simp
  next
    case False
    with "1.prems" show ?thesis
      by (subst (asm) definition_loop.simps) (auto split: if_splits)
  qed
qed


lemma get_definition_error:
  "str c \<noteq> [] \<Longrightarrow> get_definition c s = Inl e \<Longrightarrow> \<exists>msg. e = ValueError msg"
  by (auto simp: get_definition_def Let_def split: list.splits if_splits sum.splits
      dest: definition_loop_error)

lemma process_candidate_add:
  assumes "str c \<noteq> []"
  shows "\<exists>d. \<forall>m. process_candidate s m c = Inr (m ++ d)"
proof (cases "get_definition c s")
  case (Inl e)
  with assms obtain msg where "e = ValueError msg" by (auto dest: get_definition_error)
  with Inl have "\<forall>m. process_candidate s m c = Inr (m ++ Map.empty)"
    by (simp add: process_candidate_def)
  then show ?thesis by blast
next
  case (Inr defn)
  show ?thesis
  proof (cases "select_definition defn c")
    case (Inl e)
    with Inr have "\<forall>m. process_candidate s m c = Inr (m ++ Map.empty)"
      by (cases e) (simp_all add: process_candidate_def)
    then show ?thesis by blast
  next
    case (Inr defn1)
    with \<open>get_definition c s = Inr defn\<close>
    have "\<forall>m. process_candidate s m c = Inr (m ++ [str c \<mapsto> defn1])"
      by (simp add: process_candidate_def)
    then show ?thesis by blast
  qed
qed

lemma process_candidates_add:
  "\<forall>c \<in> set cs. str c \<noteq> [] \<Longrightarrow> \<exists>d. \<forall>m. process_candidates s m cs = Inr (m ++ d)"
proof (induction cs)
  case Nil
  have "\<forall>m. process_candidates s m [] = Inr (m ++ Map.empty)" by simp
  then show ?case by blast
next
  case (Cons c cs)
  then obtain d1 where d1: "\<forall>m. process_candidate s m c = Inr (m ++ d1)"
    using process_candidate_add[of c s] by auto
  from Cons obtain d2 where d2: "\<forall>m. process_candidates s m cs = Inr (m ++ d2)" by auto
  have "\<forall>m. process_candidates s m (c # cs) = Inr (m ++ (d1 ++ d2))"
    by (simp add: d1 d2)
  then show ?case by blast
qed

lemma process_line_add: "\<exists>d. \<forall>m. process_line m s = Inr (m ++ d)"
proof (cases "best_candidates s")
  case (Inl e)
  then obtain msg where "e = ValueError msg" by (auto dest: best_candidates_error)
  with Inl have "\<forall>m. process_line m s = Inr (m ++ Map.empty)"
    by (simp add: process_line_def)
  then show ?thesis by blast
next
  case (Inr cs)
  then have "\<forall>c \<in> set cs. str c \<noteq> []"
    by (auto dest!: best_candidates_conditions conditions_nonempty)
  then obtain d where "\<forall>m. process_candidates s m cs = Inr (m ++ d)"
    using process_candidates_add by blast
  with Inr have "\<forall>m. process_line m s = Inr (m ++ d)" by (simp add: process_line_def)
  then show ?thesis by blast
qed

lemma process_line_from_empty:
  "process_line Map.empty s = Inr d \<Longrightarrow> process_line m s = Inr (m ++ d)"
  using process_line_add[of s] by auto

lemma process_line_total: "\<exists>m1. process_line m s = Inr m1"
  using process_line_add[of s] by auto

lemma process_lines_total: "\<exists>m1. process_lines m ls = Inr m1"
proof (induction ls arbitrary: m)
  case Nil
  show ?case by simp
next
  case (Cons l ls)
  obtain m1 where "process_line m l = Inr m1" using process_line_total by blast
  with Cons[of m1] show ?case by simp
qed

lemma process_lines_append:
  "process_lines m (xs @ ys) =
     (case process_lines m xs of Inl e \<Rightarrow> Inl e | Inr m1 \<Rightarrow> process_lines m1 ys)"
  by (induction xs arbitrary: m) (auto split: sum.splits)

text \<open>
  Claim C10. For every in-memory document, \<open>extract_abbreviation_definition_pairs\<close>
  returns a map: no exception of the Candidate Finder, the Definition Locator or the
  Definition Validator reaches the caller. The only exception the handlers would let
  through is the IndexError of \<open>candidate[0]\<close> in \<open>get_definition\<close>, and a candidate
  that passed \<open>conditions\<close> is never empty.
\<close>

theorem extract_returns_map:
  "\<exists>m. extract_abbreviation_definition_pairs doc_text = Inr m"
  by (auto simp: extract_abbreviation_definition_pairs_def process_lines_total
      split: option.splits)

section \<open>An abbreviation that is a word of its definition\<close>

lemma split_aux_length:
  "t \<in> set (split_aux s cur) \<Longrightarrow> length t \<le> length s + length cur"
  by (induction s cur rule: split_aux.induct) (fastforce split: if_splits)+

lemma split_length: "t \<in> set (split s) \<Longrightarrow> length t \<le> length s"
  using split_aux_length[of t s "[]"] by (simp add: split_def)

lemma select_definition_full_word:
  "str abbrev \<in> set (split (str defn)) \<Longrightarrow>
     select_definition defn abbrev = Inl (ValueError ''Abbreviation is full word of definition'')"
  by (auto simp: select_definition_def dest: split_length)

lemma abc_best_candidates:
  "best_candidates ''ABC (ABC)'' = Inr [\<lparr>start = 5, stop = 8, str = ''ABC''\<rparr>]"
  by code_simp

lemma abc_get_definition:
  "get_definition \<lparr>start = 5, stop = 8, str = ''ABC''\<rparr> ''ABC (ABC)''
     = Inr \<lparr>start = 0, stop = 3, str = ''ABC''\<rparr>"
  by code_simp

lemma abc_split: "split ''ABC'' = [''ABC'']"
  by code_simp

text \<open>
  Claim C7. If the abbreviation string equals one of the white-space separated tokens of
  the definition, the Definition Validator fails with
  \<open>Abbreviation is full word of definition\<close>, and when that definition is the one the
  Definition Locator returned for the candidate, the candidate stores no pair: the map is
  unchanged and the loop goes on with the next candidate. (The witness is the line
  \<open>ABC (ABC)\<close>.)
\<close>

theorem abbreviation_full_word_rejected:
  "str abbrev \<in> set (split (str defn)) \<Longrightarrow>
     select_definition defn abbrev = Inl (ValueError ''Abbreviation is full word of definition'')
     \<and> (get_definition abbrev sentence = Inr defn \<longrightarrow>
          process_candidate sentence m abbrev = Inr m
          \<and> process_candidates sentence m (abbrev # cs) = process_candidates sentence m cs)"
  by (simp add: select_definition_full_word process_candidate_def)

theorem abbreviation_full_word_rejected_witness:
  "best_candidates ''ABC (ABC)'' = Inr [\<lparr>start = 5, stop = 8, str = ''ABC''\<rparr>]
   \<and> get_definition \<lparr>start = 5, stop = 8, str = ''ABC''\<rparr> ''ABC (ABC)''
       = Inr \<lparr>start = 0, stop = 3, str = ''ABC''\<rparr>
   \<and> ''ABC'' \<in> set (split ''ABC'')
   \<and> select_definition \<lparr>start = 0, stop = 3, str = ''ABC''\<rparr> \<lparr>start = 5, stop = 8, str = ''ABC''\<rparr>
       = Inl (ValueError ''Abbreviation is full word of definition'')
   \<and> process_candidate ''ABC (ABC)'' Map.empty \<lparr>start = 5, stop = 8, str = ''ABC''\<rparr> = Inr Map.empty
   \<and> process_line Map.empty ''ABC (ABC)'' = Inr Map.empty"
proof -
  have mem: "str \<lparr>start = 5, stop = 8, str = ''ABC''\<rparr> \<in> set (split (str \<lparr>start = 0, stop = 3, str = ''ABC''\<rparr>))"
    by (simp add: abc_split)
  note t = abbreviation_full_word_rejected[OF mem, of "''ABC (ABC)''" Map.empty "[]"]
  from t have pc: "process_candidate ''ABC (ABC)'' Map.empty \<lparr>start = 5, stop = 8, str = ''ABC''\<rparr> = Inr Map.empty"
    using abc_get_definition by blast
  show ?thesis
    using t pc by (simp add: abc_best_candidates abc_get_definition abc_split process_line_def)
qed

section \<open>Lines with unequal parenthesis counts\<close>

lemma unbalanced_best_candidates:
  "count_list l (CHR ''('') \<noteq> count_list l (CHR '')'') \<Longrightarrow>
     (\<exists>msg. best_candidates l = Inl (ValueError msg)) \<or> best_candidates l = Inr []"
  by (simp add: best_candidates_def)

lemma unbalanced_process_line:
  "count_list l (CHR ''('') \<noteq> count_list l (CHR '')'') \<Longrightarrow> process_line m l = Inr m"
  by (simp add: best_candidates_def process_line_def)

lemma unbalanced_process_lines:
  assumes "count_list l (CHR ''('') \<noteq> count_list l (CHR '')'')"
  shows "process_lines m (pre @ l # post) = process_lines m (pre @ post)"
  by (simp add: process_lines_append unbalanced_process_line[OF assms] split: sum.splits)

lemma ac_best_candidates:
  "best_candidates ''ab cd (AC)'' = Inr [\<lparr>start = 7, stop = 9, str = ''AC''\<rparr>]"
  by code_simp

lemma ac_get_definition:
  "get_definition \<lparr>start = 7, stop = 9, str = ''AC''\<rparr> ''ab cd (AC)''
     = Inr \<lparr>start = 0, stop = 5, str = ''ab cd''\<rparr>"
  by code_simp

lemma ac_select_definition:
  "select_definition \<lparr>start = 0, stop = 5, str = ''ab cd''\<rparr> \<lparr>start = 7, stop = 9, str = ''AC''\<rparr>
     = Inr \<lparr>start = 0, stop = 5, str = ''ab cd''\<rparr>"
  by code_simp

lemma ac_process_line:
  "process_line m ''ab cd (AC)'' = Inr (m(''AC'' \<mapsto> \<lparr>start = 0, stop = 5, str = ''ab cd''\<rparr>))"
  by (simp add: process_line_def ac_best_candidates process_candidate_def ac_get_definition
        ac_select_definition)

lemma open_lines:
  "yield_lines_from_doc (''(x'' @ [CHR 0x0A] @ ''ab cd (AC)'') = [''(x'', ''ab cd (AC)'']"
  by code_simp

lemma open_counts: "count_list ''(x'' (CHR ''('') \<noteq> count_list ''(x'' (CHR '')'')"
  by code_simp

text \<open>
  Claim C5. A line whose number of \<open>(\<close> differs from its number of \<open>)\<close> yields no
  candidate (the Candidate Finder raises its ValueError, or, when the line has no \<open>(\<close>
  at all, yields nothing), leaves the map as it was, and only that line is given up: the
  lines before and after it are processed as if it were not there, also in the result of
  \<open>extract_abbreviation_definition_pairs\<close> for a document that has this line.
\<close>

theorem unbalanced_line_skipped:
  "count_list l (CHR ''('') \<noteq> count_list l (CHR '')'') \<Longrightarrow>
     ((\<exists>msg. best_candidates l = Inl (ValueError msg)) \<or> best_candidates l = Inr [])
     \<and> process_line m l = Inr m
     \<and> process_lines m (pre @ l # post) = process_lines m (pre @ post)
     \<and> (doc \<noteq> [] \<and> yield_lines_from_doc doc = pre @ l # post \<longrightarrow>
          extract_abbreviation_definition_pairs (Some doc) = process_lines Map.empty (pre @ post))"
  by (simp add: unbalanced_best_candidates unbalanced_process_line unbalanced_process_lines
        extract_abbreviation_definition_pairs_def)

theorem unbalanced_line_skipped_witness:
  "count_list ''(x'' (CHR ''('') \<noteq> count_list ''(x'' (CHR '')'')
   \<and> ''(x'' @ [CHR 0x0A] @ ''ab cd (AC)'' \<noteq> []
   \<and> yield_lines_from_doc (''(x'' @ [CHR 0x0A] @ ''ab cd (AC)'') = [] @ ''(x'' # [''ab cd (AC)'']
   \<and> process_line Map.empty ''(x'' = Inr Map.empty
   \<and> extract_abbreviation_definition_pairs (Some (''(x'' @ [CHR 0x0A] @ ''ab cd (AC)''))
       = Inr [''AC'' \<mapsto> \<lparr>start = 0, stop = 5, str = ''ab cd''\<rparr>]"
proof -
  note t = unbalanced_line_skipped[OF open_counts, of Map.empty "[]" "[''ab cd (AC)'']"
      "''(x'' @ [CHR 0x0A] @ ''ab cd (AC)''"]
  have l: "yield_lines_from_doc (''(x'' @ [CHR 0x0A] @ ''ab cd (AC)'') = [] @ ''(x'' # [''ab cd (AC)'']"
    using open_lines by simp
  have ne: "''(x'' @ [CHR 0x0A] @ ''ab cd (AC)'' \<noteq> []" by simp
  from t l ne have e: "extract_abbreviation_definition_pairs (Some (''(x'' @ [CHR 0x0A] @ ''ab cd (AC)''))
       = process_lines Map.empty ([] @ [''ab cd (AC)''])" by blast
  from t have p: "process_line Map.empty ''(x'' = Inr Map.empty" by blast
  show ?thesis
    by (simp only: open_counts l ne p e simp_thms) (simp add: ac_process_line)
qed

section \<open>Too few tokens with the key character\<close>

text \<open>
  When the key occurs more often in the candidate than at the head of the tokens of
  \<open>sentence[:candidate.start - 2]\<close>, the Definition Locator raises its ValueError.
\<close>

lemma get_definition_less_keys:
  assumes "str c \<noteq> []"
    and "count_list (lower (str c)) (lower_char (hd (str c)))
           > count_list (map hd (split (lower (py_slice_to s (start c - 2))))) (lower_char (hd (str c)))"
  shows "get_definition c s = Inl (ValueError
    ''There are less keys in the tokens in front of candidate than there are in the candidate'')"
proof -
  from assms(1) obtain c0 cs where "str c = c0 # cs" by (cases "str c") auto
  with assms(2) show ?thesis
    by (simp add: get_definition_def Let_def)
qed

text \<open>The line \<open>(WHO)\<close> leaves every map unchanged.\<close>

lemma paren_who_line: "process_line m ''(WHO)'' = Inr m"
proof -
  have b: "best_candidates ''(WHO)'' = Inr [\<lparr>start = 1, stop = 4, str = ''WHO''\<rparr>]"
    by code_simp
  have g: "get_definition \<lparr>start = 1, stop = 4, str = ''WHO''\<rparr> ''(WHO)'' = Inl (ValueError
    ''There are less keys in the tokens in front of candidate than there are in the candidate'')"
    by code_simp
  show ?thesis by (simp add: process_line_def b process_candidate_def g)
qed

lemma paren_who_lines: "yield_lines_from_doc ''(WHO)'' = [''(WHO)'']"
  by code_simp

lemma paren_who_extract:
  "extract_abbreviation_definition_pairs (Some ''(WHO)'') = Inr Map.empty"
  by (simp add: extract_abbreviation_definition_pairs_def paren_who_lines paren_who_line)

lemma wrap_best_candidates:
  "best_candidates ''(ab) ab'' = Inr [\<lparr>start = 1, stop = 3, str = ''ab''\<rparr>]"
  by code_simp

lemma wrap_front_text: "py_slice_to ''(ab) ab'' 0 = []"
  by code_simp

lemma wrap_front_count:
  "count_list (map hd (split (lower (py_slice_to ''(ab) ab'' 0)))) (lower_char (hd ''ab'')) = 0"
  by code_simp

lemma wrap_freq: "count_list (lower ''ab'') (lower_char (hd ''ab'')) = 1"
  by code_simp

lemma wrap_window_text: "py_slice_to ''(ab) ab'' (1 - 2) = ''(ab) a''"
  by code_simp

lemma wrap_window_tokens:
  "split (lower (py_slice_to ''(ab) ab'' (1 - 2))) = [''(ab)'', ''a'']"
  by code_simp

lemma wrap_get_definition:
  "get_definition \<lparr>start = 1, stop = 3, str = ''ab''\<rparr> ''(ab) ab''
     = Inr \<lparr>start = 4, stop = 0, str = []\<rparr>"
  by code_simp

lemma wrap_select_definition:
  "select_definition \<lparr>start = 4, stop = 0, str = []\<rparr> \<lparr>start = 1, stop = 3, str = ''ab''\<rparr>
     = Inl (ValueError ''Abbreviation is longer than definition'')"
  by code_simp

lemma wrap_process_line: "process_line Map.empty ''(ab) ab'' = Inr Map.empty"
  by (simp add: process_line_def wrap_best_candidates process_candidate_def wrap_get_definition
        wrap_select_definition)

text \<open>
  Claim C6. When the key character occurs more often in the candidate than there are
  preceding tokens that start with it, the Definition Locator should fail. On the line
  \<open>(ab) ab\<close> the candidate \<open>ab\<close> starts at offset \<open>1\<close>; nothing is in front of its
  parenthesis, so no preceding token starts with the key \<open>a\<close>, which occurs once in the
  candidate. The source takes the tokens of \<open>sentence[:candidate.start - 2]\<close>, and
  \<open>candidate.start - 2\<close> is \<open>-1\<close> here: the slice is the line without its last
  character, \<open>(ab) a\<close>, whose second token starts with \<open>a\<close>. The Definition Locator
  does not fail and returns the empty span at \<open>[4, 0)\<close>. The candidate is dropped only
  afterwards, by the length check of the Definition Validator, so the line still stores
  no pair.
\<close>

theorem locator_window_wraps_at_line_start:
  "best_candidates ''(ab) ab'' = Inr [\<lparr>start = 1, stop = 3, str = ''ab''\<rparr>]
   \<and> py_slice_to ''(ab) ab'' 0 = []
   \<and> count_list (map hd (split (lower (py_slice_to ''(ab) ab'' 0)))) (lower_char (hd ''ab'')) = 0
   \<and> count_list (lower ''ab'') (lower_char (hd ''ab'')) = 1
   \<and> py_slice_to ''(ab) ab'' (1 - 2) = ''(ab) a''
   \<and> split (lower (py_slice_to ''(ab) ab'' (1 - 2))) = [''(ab)'', ''a'']
   \<and> get_definition \<lparr>start = 1, stop = 3, str = ''ab''\<rparr> ''(ab) ab''
       = Inr \<lparr>start = 4, stop = 0, str = []\<rparr>
   \<and> select_definition \<lparr>start = 4, stop = 0, str = []\<rparr> \<lparr>start = 1, stop = 3, str = ''ab''\<rparr>
       = Inl (ValueError ''Abbreviation is longer than definition'')
   \<and> process_line Map.empty ''(ab) ab'' = Inr Map.empty"
  by (intro conjI wrap_best_candidates wrap_front_text wrap_front_count wrap_freq
        wrap_window_text wrap_window_tokens wrap_get_definition wrap_select_definition
        wrap_process_line)

section \<open>The same abbreviation on two lines\<close>

lemma process_lines_unchanged:
  "\<forall>l \<in> set ls. \<forall>dl. process_line Map.empty l = Inr dl \<longrightarrow> dl a = None \<Longrightarrow>
     process_lines m ls = Inr m1 \<Longrightarrow> m1 a = m a"
proof (induction ls arbitrary: m)
  case Nil
  then show ?case by simp
next
  case (Cons l ls)
  obtain dl where dl: "process_line Map.empty l = Inr dl" using process_line_total by blast
  with Cons.prems(1) have "dl a = None" by simp
  from dl have pl: "process_line m l = Inr (m ++ dl)" by (rule process_line_from_empty)
  with Cons.prems(2) have "process_lines (m ++ dl) ls = Inr m1" by simp
  with Cons.IH[of "m ++ dl"] Cons.prems(1) have "m1 a = (m ++ dl) a" by simp
  with \<open>dl a = None\<close> show ?case by (simp add: map_add_def)
qed

lemma ax_best_candidates:
  "best_candidates ''ax cy (AC)'' = Inr [\<lparr>start = 7, stop = 9, str = ''AC''\<rparr>]"
  by code_simp

lemma ax_get_definition:
  "get_definition \<lparr>start = 7, stop = 9, str = ''AC''\<rparr> ''ax cy (AC)''
     = Inr \<lparr>start = 0, stop = 5, str = ''ax cy''\<rparr>"
  by code_simp

lemma ax_select_definition:
  "select_definition \<lparr>start = 0, stop = 5, str = ''ax cy''\<rparr> \<lparr>start = 7, stop = 9, str = ''AC''\<rparr>
     = Inr \<lparr>start = 0, stop = 5, str = ''ax cy''\<rparr>"
  by code_simp

lemma ax_process_line:
  "process_line m ''ax cy (AC)'' = Inr (m(''AC'' \<mapsto> \<lparr>start = 0, stop = 5, str = ''ax cy''\<rparr>))"
  by (simp add: process_line_def ax_best_candidates process_candidate_def ax_get_definition
        ax_select_definition)

lemma two_lines:
  "yield_lines_from_doc (''ab cd (AC)'' @ [CHR 0x0A] @ ''ax cy (AC)'')
     = [''ab cd (AC)'', ''ax cy (AC)'']"
  by code_simp

text \<open>
  Claim C8. When a document has two lines that each store a definition for the same
  abbreviation text, and no line after the second of them stores one for it, the map
  returned by \<open>extract_abbreviation_definition_pairs\<close> holds for that abbreviation the
  definition of the later line; the map has one value per key, so an earlier definition
  that differs is gone. A line \<open>l\<close> stores \<open>v\<close> for \<open>a\<close> when processing it from the
  empty map gives a map with \<open>a \<mapsto> v\<close>.
\<close>

theorem last_write_wins:
  assumes "doc \<noteq> []"
    and "yield_lines_from_doc doc = pre @ l1 # mid @ l2 # post"
    and "process_line Map.empty l1 = Inr d1" and "d1 a = Some v1"
    and "process_line Map.empty l2 = Inr d2" and "d2 a = Some v2"
    and "\<forall>l \<in> set post. \<forall>dl. process_line Map.empty l = Inr dl \<longrightarrow> dl a = None"
  shows "\<exists>m. extract_abbreviation_definition_pairs (Some doc) = Inr m \<and> m a = Some v2
             \<and> (v1 \<noteq> v2 \<longrightarrow> m a \<noteq> Some v1)"
proof -
  obtain m0 where m0: "process_lines Map.empty (pre @ l1 # mid) = Inr m0"
    using process_lines_total by blast
  have l2: "process_line m0 l2 = Inr (m0 ++ d2)"
    using assms(5) by (rule process_line_from_empty)
  obtain m where m: "process_lines (m0 ++ d2) post = Inr m"
    using process_lines_total by blast
  have "m a = (m0 ++ d2) a" using assms(7) m by (rule process_lines_unchanged)
  with assms(6) have ma: "m a = Some v2" by (simp add: map_add_def)
  have "pre @ l1 # mid @ l2 # post = (pre @ l1 # mid) @ l2 # post" by simp
  then have "process_lines Map.empty (pre @ l1 # mid @ l2 # post) = Inr m"
    using m0 l2 m by (simp only: process_lines_append) simp
  with assms(1,2) have "extract_abbreviation_definition_pairs (Some doc) = Inr m"
    by (simp add: extract_abbreviation_definition_pairs_def)
  with ma show ?thesis by auto
qed

theorem last_write_wins_witness:
  "''ab cd (AC)'' @ [CHR 0x0A] @ ''ax cy (AC)'' \<noteq> []
   \<and> yield_lines_from_doc (''ab cd (AC)'' @ [CHR 0x0A] @ ''ax cy (AC)'')
       = [] @ ''ab cd (AC)'' # [] @ ''ax cy (AC)'' # []
   \<and> process_line Map.empty ''ab cd (AC)''
       = Inr [''AC'' \<mapsto> \<lparr>start = 0, stop = 5, str = ''ab cd''\<rparr>]
   \<and> process_line Map.empty ''ax cy (AC)''
       = Inr [''AC'' \<mapsto> \<lparr>start = 0, stop = 5, str = ''ax cy''\<rparr>]
   \<and> (\<exists>m. extract_abbreviation_definition_pairs (Some (''ab cd (AC)'' @ [CHR 0x0A] @ ''ax cy (AC)''))
             = Inr m
           \<and> m ''AC'' = Some \<lparr>start = 0, stop = 5, str = ''ax cy''\<rparr>
           \<and> m ''AC'' \<noteq> Some \<lparr>start = 0, stop = 5, str = ''ab cd''\<rparr>)"
proof -
  have ne: "''ab cd (AC)'' @ [CHR 0x0A] @ ''ax cy (AC)'' \<noteq> []" by simp
  have ls: "yield_lines_from_doc (''ab cd (AC)'' @ [CHR 0x0A] @ ''ax cy (AC)'')
       = [] @ ''ab cd (AC)'' # [] @ ''ax cy (AC)'' # []"
    using two_lines by simp
  have p1: "process_line Map.empty ''ab cd (AC)''
       = Inr [''AC'' \<mapsto> \<lparr>start = 0, stop = 5, str = ''ab cd''\<rparr>]"
    by (rule ac_process_line)
  have p2: "process_line Map.empty ''ax cy (AC)''
       = Inr [''AC'' \<mapsto> \<lparr>start = 0, stop = 5, str = ''ax cy''\<rparr>]"
    by (rule ax_process_line)
  have v1: "[''AC'' \<mapsto> \<lparr>start = 0, stop = 5, str = ''ab cd''\<rparr>] ''AC''
              = Some \<lparr>start = 0, stop = 5, str = ''ab cd''\<rparr>" by simp
  have v2: "[''AC'' \<mapsto> \<lparr>start = 0, stop = 5, str = ''ax cy''\<rparr>] ''AC''
              = Some \<lparr>start = 0, stop = 5, str = ''ax cy''\<rparr>" by simp
  have post: "\<forall>l \<in> set []. \<forall>dl. process_line Map.empty l = Inr dl \<longrightarrow> dl ''AC'' = None"
    by simp
  note t = last_write_wins[OF ne ls p1 v1 p2 v2 post]
  have "\<lparr>start = 0, stop = 5, str = ''ab cd''\<rparr> \<noteq> \<lparr>start = 0::int, stop = 5::int, str = ''ax cy''\<rparr>"
    by simp
  with t have "\<exists>m. extract_abbreviation_definition_pairs (Some (''ab cd (AC)'' @ [CHR 0x0A] @ ''ax cy (AC)''))
             = Inr m
           \<and> m ''AC'' = Some \<lparr>start = 0, stop = 5, str = ''ax cy''\<rparr>
           \<and> m ''AC'' \<noteq> Some \<lparr>start = 0, stop = 5, str = ''ab cd''\<rparr>"
    by blast
  with ne ls p1 p2 show ?thesis by blast
qed

section \<open>Termination of the alignment loop\<close>

text \<open>
  A candidate of the Candidate Finder is a slice that begins after the leading white space
  of the parenthesis interior and has passed \<open>conditions\<close>, so it is non-empty and its
  first character is alphanumeric. With the tables of the ASCII range, lower-casing keeps
  a character alphanumeric, so the lower-cased first character is alphanumeric too.
  (Beyond ASCII this is not so for every character: \<open>str.lower\<close> turns U+0130 into two
  code points, the second of them a combining mark.)
\<close>

lemma conditions_first_alnum: "conditions c \<Longrightarrow> \<not> isspace (hd c) \<Longrightarrow> isalnum (hd c)"
proof -
  assume c: "conditions c" and ns: "\<not> isspace (hd c)"
  from c obtain x xs where cx: "c = x # xs" by (cases c) (auto dest: conditions_nonempty)
  with ns have l: "lstrip c = c" by (simp add: lstrip_def)
  show ?thesis
  proof (cases "regex_match c")
    case True
    with cx have "is_letter x"
      by (simp add: regex_match_def regex_unit_def split: if_splits option.splits)
    with cx show ?thesis by (auto simp: is_letter_def isalnum_def Let_def)
  next
    case False
    with c l show ?thesis by (simp add: conditions_def split: if_splits)
  qed
qed

lemma py_slice_empty: "0 \<le> y \<Longrightarrow> y \<le> x \<Longrightarrow> py_slice s x y = []"
  by (simp add: py_slice_def norm_index_def Let_def)

lemma rstrip_all_space: "lstrip c = [] \<Longrightarrow> rstrip c = []"
  by (simp add: lstrip_def rstrip_def dropWhile_eq_Nil_conv)

lemma take_drop_len: "length (takeWhile P xs) + length (dropWhile P xs) = length xs"
  using arg_cong[where f = length, OF takeWhile_dropWhile_id[of P xs]]
  by (simp only: length_append)


lemma stripped_slice:
  assumes "1 \<le> i" and "i \<le> int (length s)" and "i - 1 \<le> j" and "j \<le> int (length s)"
  defines "c0 \<equiv> py_slice s i j"
  defines "c \<equiv> py_slice s (i + int (length c0) - int (length (lstrip c0)))
                         (j - int (length c0) + int (length (rstrip c0)))"
  shows "c = [] \<or> \<not> isspace (hd c)"
proof -
  define k where "k = length (takeWhile isspace c0)"
  have ni: "norm_index (length s) i = nat i" and nj: "norm_index (length s) j = nat j"
    using assms(1-4) by (simp_all add: norm_index_def)
  have c0: "c0 = take (nat j - nat i) (drop (nat i) s)"
    by (simp add: c0_def py_slice_def Let_def ni nj)
  have len0: "int (length c0) = (if i \<le> j then j - i else 0)"
    using assms(1-4) by (auto simp: c0)
  have "k + length (lstrip c0) = length c0"
    unfolding k_def lstrip_def by (rule take_drop_len)
  then have lk: "i + int (length c0) - int (length (lstrip c0)) = i + int k" by linarith
  show ?thesis
  proof (cases "lstrip c0 = []")
    case True
    then have r: "rstrip c0 = []" by (rule rstrip_all_space)
    have "0 \<le> j - int (length c0) + int (length (rstrip c0))"
      using assms(1-4) len0 r by (simp split: if_splits)
    moreover have "j - int (length c0) + int (length (rstrip c0))
                     \<le> i + int (length c0) - int (length (lstrip c0))"
      using assms(1-4) len0 r True by (simp split: if_splits)
    ultimately have "c = []" unfolding c_def by (rule py_slice_empty)
    then show ?thesis by simp
  next
    case False
    with \<open>k + length (lstrip c0) = length c0\<close> have kl: "k < length c0" by (cases "lstrip c0") auto
    have "\<not> isspace (c0 ! k)"
      unfolding k_def using kl[unfolded k_def] by (rule nth_length_takeWhile)
    moreover have "c0 ! k = s ! (nat i + k)" using kl assms(1,2) by (simp add: c0)
    ultimately have ns: "\<not> isspace (s ! (nat i + k))" by simp
    have lt: "nat i + k < length s" using kl by (simp add: c0) linarith
    have n: "norm_index (length s) (i + int k) = nat i + k"
      using assms(1) lt by (simp add: norm_index_def nat_add_distrib)
    define b where "b = norm_index (length s) (j - int (length c0) + int (length (rstrip c0)))"
    have c: "c = take (b - (nat i + k)) (drop (nat i + k) s)"
      unfolding c_def lk by (simp add: py_slice_def Let_def n b_def)
    show ?thesis
    proof (cases "b - (nat i + k)")
      case 0
      with c show ?thesis by simp
    next
      case (Suc m)
      with c lt have "hd c = s ! (nat i + k)"
        by (simp add: take_Suc hd_drop_conv_nth drop_eq_Nil)
      with ns show ?thesis by simp
    qed
  qed
qed


lemma best_loop_first_alnum: "c \<in> set (best_loop s ci) \<Longrightarrow> isalnum (hd (str c))"
proof (induction s ci rule: best_loop.induct)
  case (1 sentence closeindex)
  show ?case
  proof (cases "find_from sentence (CHR ''('') (nat (closeindex + 1))")
    case None
    with "1.prems" show ?thesis by (subst (asm) best_loop.simps) simp
  next
    case (Some openindex)
    note fo = Some
    show ?thesis
    proof (cases "scan_close (drop (openindex + 1) sentence) 1 (openindex + 1)")
      case None
      with fo "1.prems" have "c \<in> set (best_loop sentence (int openindex + 1))"
        by (subst (asm) best_loop.simps) simp
      with "1.IH"(1)[OF fo None] show ?thesis .
    next
      case (Some closeindex')
      define i where "i = int openindex + 1"
      define j where "j = int closeindex' - 1"
      define c0 where "c0 = py_slice sentence i j"
      define c1 where "c1 = py_slice sentence (i + int (length c0) - int (length (lstrip c0)))
                              (j - int (length c0) + int (length (rstrip c0)))"
      from fo Some "1.prems"
      have "(str c = c1 \<and> conditions c1) \<or> c \<in> set (best_loop sentence (int closeindex'))"
        unfolding c1_def c0_def i_def j_def
        by (subst (asm) best_loop.simps) (auto simp: Let_def split: if_splits)
      then show ?thesis
      proof
        assume "c \<in> set (best_loop sentence (int closeindex'))"
        then show ?thesis using "1.IH"(2)[OF fo Some refl refl refl refl refl refl] by simp
      next
        assume a: "str c = c1 \<and> conditions c1"
        from find_from_bounds[OF fo] have b1: "1 \<le> i" "i \<le> int (length sentence)"
          by (simp_all add: i_def)
        from scan_close_bounds[OF Some] find_from_bounds[OF fo]
        have b2: "i - 1 \<le> j" "j \<le> int (length sentence)"
          by (auto simp: i_def j_def)
        from stripped_slice[OF b1 b2] have "c1 = [] \<or> \<not> isspace (hd c1)"
          by (simp add: c1_def c0_def)
        with a conditions_nonempty[of c1] have "\<not> isspace (hd c1)" by blast
        with a show ?thesis by (simp add: conditions_first_alnum)
      qed
    qed
  qed
qed

lemma best_candidates_first_alnum:
  "best_candidates s = Inr cs \<Longrightarrow> c \<in> set cs \<Longrightarrow> str c \<noteq> [] \<and> isalnum (hd (str c))"
  using best_candidates_conditions[of s cs c] conditions_nonempty[of "str c"]
  by (auto simp: best_candidates_def split: if_splits dest: best_loop_first_alnum)

lemma isalnum_lower_char: "isalnum c \<Longrightarrow> isalnum (lower_char c)"
  by (auto simp: isalnum_def lower_char_def Let_def)

lemma best_candidates_lower_first_alnum:
  "best_candidates s = Inr cs \<Longrightarrow> c \<in> set cs \<Longrightarrow>
     str c \<noteq> [] \<and> isalnum (lower_char (hd (str c)))"
  using best_candidates_first_alnum[of s cs c] by (simp add: isalnum_lower_char)

text \<open>
  The alignment loop. The lemmas below use nothing of \<open>isalnum\<close> and \<open>lower_char\<close>
  but what their hypotheses say: they hold for any classification of the characters.
\<close>

lemma py_get_first: "a \<noteq> [] \<Longrightarrow> py_get a (- int (length a)) = Some (hd a)"
  by (cases a) (simp_all add: py_get_def)

lemma align_run_enough:
  "nat (l + int (length d) + 1) < n \<Longrightarrow> align_run n d a s l = Some (align_loop d a s l)"
proof (induction n arbitrary: s l)
  case 0
  then show ?case by simp
next
  case (Suc n)
  show ?case
  proof (cases "align_step d a s l")
    case (Break r)
    then show ?thesis by (simp add: align_loop.simps)
  next
    case (Raise e s' l')
    then show ?thesis by (simp add: align_loop.simps)
  next
    case (Next s' l')
    from align_step_Next[OF Next] Suc.prems have "nat (l' + int (length d) + 1) < n" by auto
    then have "align_run n d a s' l' = Some (align_loop d a s' l')" by (rule Suc.IH)
    with Next show ?thesis by (simp add: align_loop.simps[of d a s l])
  qed
qed

lemma align_step_Break:
  "align_step d a s l = Break r \<Longrightarrow>
     r = l \<and> (\<exists>lc. py_get d l = Some lc) \<and>
     (l = - int (length d) \<or> (\<exists>pc. py_get d (l - 1) = Some pc \<and> \<not> isalnum pc))"
  by (auto simp: align_step_def Let_def split: option.splits if_splits)

lemma align_loop_Break:
  "align_loop d a s l = Inr r \<Longrightarrow>
     r \<le> l \<and> (\<exists>lc. py_get d r = Some lc) \<and>
     (r = - int (length d) \<or> (\<exists>pc. py_get d (r - 1) = Some pc \<and> \<not> isalnum pc))"
proof (induction d a s l rule: align_loop.induct)
  case (1 defn abbrev sindex lindex)
  show ?case
  proof (cases "align_step defn abbrev sindex lindex")
    case (Break r')
    with "1.prems" have "r' = r" by (simp add: align_loop.simps[of defn abbrev sindex lindex])
    with align_step_Break[OF Break] show ?thesis by simp
  next
    case (Raise e s' l')
    with "1.prems" show ?thesis by (simp add: align_loop.simps[of defn abbrev sindex lindex])
  next
    case (Next s' l')
    with "1.prems" have "align_loop defn abbrev s' l' = Inr r"
      by (simp add: align_loop.simps[of defn abbrev sindex lindex])
    from "1.IH"[OF Next this] align_step_Next[OF Next] show ?thesis by auto
  qed
qed

lemma align_step_inv:
  assumes "a \<noteq> []" and "isalnum (lower_char (hd a))"
    and "- int (length a) \<le> s" and "s \<le> - 1" and "l \<le> - 1"
  shows "case align_step d a s l of
           Break r \<Rightarrow> True
         | Raise e s' l' \<Rightarrow> l' < - int (length d)
         | Next s' l' \<Rightarrow> - int (length a) \<le> s' \<and> s' \<le> - 1 \<and> l' \<le> - 1"
proof (cases "py_get d l")
  case None
  with assms(5) have "l < - int (length d)" by (auto simp: py_get_def Let_def split: if_splits)
  with None show ?thesis by (simp add: align_step_def)
next
  case (Some lc)
  then have lr: "- int (length d) \<le> l" by (auto simp: py_get_def Let_def split: if_splits)
  from assms(3,4) obtain sc where sc: "py_get a s = Some sc"
    by (auto simp: py_get_def Let_def)
  have first: "s = - int (length a) \<longrightarrow> isalnum (lower_char sc)"
    using sc py_get_first[OF assms(1)] assms(2) by auto
  have prev: "l = - int (length d) \<or> (\<exists>pc. py_get d (l - 1) = Some pc)"
    using lr assms(5) by (auto simp: py_get_def Let_def)
  show ?thesis
    using Some sc first prev assms(3,4,5) lr
    by (auto simp: align_step_def Let_def split: option.splits)
qed

lemma align_loop_Raise:
  assumes "a \<noteq> []" and "isalnum (lower_char (hd a))"
  shows "align_loop d a s l = Inl (e, s', l') \<Longrightarrow> - int (length a) \<le> s \<Longrightarrow> s \<le> - 1 \<Longrightarrow> l \<le> - 1
     \<Longrightarrow> l' < - int (length d)"
  using assms
proof (induction d a s l rule: align_loop.induct)
  case (1 defn abbrev sindex lindex)
  note inv = align_step_inv[OF "1.prems"(5,6,2,3,4), of defn]
  show ?case
  proof (cases "align_step defn abbrev sindex lindex")
    case (Break r)
    with "1.prems"(1) show ?thesis by (simp add: align_loop.simps[of defn abbrev sindex lindex])
  next
    case (Raise e1 s1 l1)
    with "1.prems"(1) have "l1 = l'" by (simp add: align_loop.simps[of defn abbrev sindex lindex])
    with inv Raise show ?thesis by simp
  next
    case (Next s1 l1)
    with "1.prems"(1) have "align_loop defn abbrev s1 l1 = Inl (e, s', l')"
      by (simp add: align_loop.simps[of defn abbrev sindex lindex])
    moreover from inv Next have "- int (length abbrev) \<le> s1" "s1 \<le> - 1" "l1 \<le> - 1" by simp_all
    ultimately show ?thesis using "1.IH"[OF Next] "1.prems"(5,6) by blast
  qed
qed

lemma exhaust_loop: "align_loop ''xy'' ''ab'' (- 1) (- 1) = Inl (IndexError, - 1, - 3)"
  by code_simp

lemma exhaust_hyps:
  "length ''ab'' \<le> length ''xy'' \<and> ''ab'' \<notin> set (split ''xy'')
   \<and> ''ab'' \<noteq> [] \<and> isalnum (lower_char (hd ''ab''))"
  by code_simp

text \<open>
  Claim C9, as amended. From the cursors \<open>sindex = lindex = -1\<close> the alignment loop of
  \<open>select_definition\<close> stops within \<open>len(definition) + 1\<close> iterations, for every
  definition and abbreviation. When it stops by \<open>break\<close>, \<open>lindex\<close> is inside the
  definition and at a word boundary: at the first character of the definition, or after a
  character that is not alphanumeric. When it stops in a failure and the abbreviation is
  non-empty and its lower-cased first character is alphanumeric (the test
  \<open>abbrev[0].lower().isalnum()\<close> of the loop), \<open>lindex\<close> has passed the first
  character of the definition: the definition is exhausted.
\<close>

theorem alignment_loop_terminates:
  "align_run (length d + 1) d a (- 1) (- 1) = Some (align_loop d a (- 1) (- 1))
   \<and> (case align_loop d a (- 1) (- 1) of
         Inr l \<Rightarrow> - int (length d) \<le> l \<and> l \<le> - 1
                  \<and> (l = - int (length d) \<or> (\<exists>pc. py_get d (l - 1) = Some pc \<and> \<not> isalnum pc))
       | Inl (e, s, l) \<Rightarrow> (a \<noteq> [] \<and> isalnum (lower_char (hd a)) \<longrightarrow> l < - int (length d)))"
proof -
  have run: "align_run (length d + 1) d a (- 1) (- 1) = Some (align_loop d a (- 1) (- 1))"
    by (rule align_run_enough) simp
  have res: "case align_loop d a (- 1) (- 1) of
         Inr l \<Rightarrow> - int (length d) \<le> l \<and> l \<le> - 1
                  \<and> (l = - int (length d) \<or> (\<exists>pc. py_get d (l - 1) = Some pc \<and> \<not> isalnum pc))
       | Inl (e, s, l) \<Rightarrow> (a \<noteq> [] \<and> isalnum (lower_char (hd a)) \<longrightarrow> l < - int (length d))"
  proof (cases "align_loop d a (- 1) (- 1)")
    case (Inr r)
    from align_loop_Break[OF Inr] have "r \<le> - 1"
      and "\<exists>lc. py_get d r = Some lc"
      and b: "r = - int (length d) \<or> (\<exists>pc. py_get d (r - 1) = Some pc \<and> \<not> isalnum pc)"
      by simp_all
    then have "- int (length d) \<le> r" by (auto simp: py_get_def Let_def split: if_splits)
    with \<open>r \<le> - 1\<close> b Inr show ?thesis by simp
  next
    case (Inl x)
    obtain e s l where x: "x = (e, s, l)" by (cases x)
    have "a \<noteq> [] \<and> isalnum (lower_char (hd a)) \<longrightarrow> l < - int (length d)"
    proof
      assume h: "a \<noteq> [] \<and> isalnum (lower_char (hd a))"
      then have "- int (length a) \<le> - 1" by (cases a) simp_all
      with align_loop_Raise[of a d "- 1" "- 1" e s l] h Inl x show "l < - int (length d)" by simp
    qed
    with Inl x show ?thesis by simp
  qed
  from run res show ?thesis by blast
qed

text \<open>
  The witness is a call that passes both checks of \<open>select_definition\<close> in front of the
  loop: the definition \<open>xy\<close> is as long as the abbreviation \<open>ab\<close> and has no token
  equal to it. The loop reads \<open>y\<close> and \<open>x\<close> without a match and fails at
  \<open>definition[-3]\<close>, in its third iteration.
\<close>

theorem alignment_loop_terminates_witness:
  "length ''ab'' \<le> length ''xy'' \<and> ''ab'' \<notin> set (split ''xy'')
   \<and> ''ab'' \<noteq> [] \<and> isalnum (lower_char (hd ''ab''))
   \<and> align_run (length ''xy'' + 1) ''xy'' ''ab'' (- 1) (- 1) = Some (Inl (IndexError, - 1, - 3))
   \<and> align_loop ''xy'' ''ab'' (- 1) (- 1) = Inl (IndexError, - 1, - 3)
   \<and> (- 3 :: int) < - int (length ''xy'')"
  using alignment_loop_terminates[of "''xy''" "''ab''"] exhaust_hyps
  by (simp add: exhaust_loop)

lemma empty_abbrev_loop: "align_loop ''x'' [] (- 1) (- 1) = Inl (IndexError, - 1, - 1)"
  by code_simp

lemma dotted_abbrev_loop: "align_loop ''..a'' ''.a'' (- 1) (- 1) = Inl (IndexError, - 4, - 3)"
  by code_simp

lemma not_exhausted_facts:
  "length ([] :: string) \<le> length ''x'' \<and> [] \<notin> set (split ''x'') \<and> py_get ''x'' (- 1) = Some (CHR ''x'')
   \<and> length ''.a'' \<le> length ''..a'' \<and> ''.a'' \<notin> set (split ''..a'')
   \<and> py_get ''..a'' (- 3) = Some (CHR ''.'')"
  by code_simp

text \<open>
  The claim as stated, for every abbreviation string that meets the two checked
  preconditions, fails when the abbreviation is empty or its lower-cased first character
  is not alphanumeric: \<open>abbrev[sindex]\<close> then raises an IndexError while
  \<open>definition[lindex]\<close> can still be read.
\<close>

theorem alignment_failure_before_exhaustion:
  "length ([] :: string) \<le> length ''x'' \<and> [] \<notin> set (split ''x'')
   \<and> align_loop ''x'' [] (- 1) (- 1) = Inl (IndexError, - 1, - 1)
   \<and> py_get ''x'' (- 1) = Some (CHR ''x'')
   \<and> length ''.a'' \<le> length ''..a'' \<and> ''.a'' \<notin> set (split ''..a'')
   \<and> align_loop ''..a'' ''.a'' (- 1) (- 1) = Inl (IndexError, - 4, - 3)
   \<and> py_get ''..a'' (- 3) = Some (CHR ''.'')"
  using not_exhausted_facts by (simp only: empty_abbrev_loop dotted_abbrev_loop simp_thms)

end
